theory Spec2Isabelle
  imports Main
begin

section \<open>gh\_fetch.py: exhaustive pagination over the gh command-line client\<close>

text \<open>
  The script drives the external \<^verbatim>\<open>gh\<close> client. Everything outside the script is a
  parameter of the model:
  \<^item> \<open>gh\<close>, the client: from the state of the outside world and an argument list to the
    outcome of running the program, and the next state of the world. The outcome is \<open>None\<close>
    when the program cannot be started (\<^verbatim>\<open>OSError\<close>, as \<^verbatim>\<open>FileNotFoundError\<close> when gh is
    not installed), and else the standard output, the standard error and the return code;
    an output is \<open>None\<close> when its bytes are not valid UTF-8, and else the decoded text;
  \<^item> \<open>json_loads\<close>, \<^verbatim>\<open>json.loads\<close> on the output of \<^verbatim>\<open>gh ... list --json ...\<close>: the
    decoded list of items, \<^verbatim>\<open>json.JSONDecodeError\<close>, \<^verbatim>\<open>RecursionError\<close> on a text that is
    nested too deep, or \<^verbatim>\<open>ValueError\<close> on a number of more digits than \<^verbatim>\<open>int\<close> converts;
  \<^item> \<open>hours_ago\<close>, the clock: \<^verbatim>\<open>datetime.now(UTC) - timedelta(hours=h)\<close>, or \<open>None\<close> when
    that instant is out of the range of \<^verbatim>\<open>datetime\<close> (\<^verbatim>\<open>OverflowError\<close>).
  What the script prints with \<^verbatim>\<open>console.print\<close> is returned as a list of lines, and the
  argument lists handed to \<^verbatim>\<open>run_gh_command\<close> are returned in the order of the calls.
  Updates of the progress bar are not modelled. A string is the list of its code points,
  as far as they are below 256.
\<close>

subsection \<open>Python values and strings\<close>

datatype py_error =
    KeyError string | IndexError | Exit int
  | OSError | UnicodeDecodeError | RecursionError | ValueError | OverflowError

definition digit_char :: "nat \<Rightarrow> char" where
  "digit_char d = ''0123456789'' ! d"

fun str_nat :: "nat \<Rightarrow> string" where
  "str_nat n = (if n < 10 then [digit_char n] else str_nat (n div 10) @ [digit_char (n mod 10)])"

declare str_nat.simps [simp del]

definition str_int :: "int \<Rightarrow> string" where
  "str_int i = (if i < 0 then CHR ''-'' # str_nat (nat (- i)) else str_nat (nat i))"

text \<open>\<^verbatim>\<open>"%0kd" % n\<close> for a non-negative \<open>n\<close>.\<close>

definition zero_pad :: "nat \<Rightarrow> nat \<Rightarrow> string" where
  "zero_pad k n = replicate (k - length (str_nat n)) CHR ''0'' @ str_nat n"

text \<open>
  \<^verbatim>\<open>str.strip()\<close>: the white space of Python among the code points below 256 is
  9 to 13, 28 to 32, 133 and 160. \<^verbatim>\<open>str.upper()\<close> is modelled on the ASCII letters.
\<close>

definition is_space :: "char \<Rightarrow> bool" where
  "is_space c =
     (let n = (of_char c :: nat) in (9 \<le> n \<and> n \<le> 13) \<or> (28 \<le> n \<and> n \<le> 32) \<or> n = 133 \<or> n = 160)"

definition strip :: "string \<Rightarrow> string" where
  "strip s = rev (dropWhile is_space (rev (dropWhile is_space s)))"

definition upper_char :: "char \<Rightarrow> char" where
  "upper_char c =
     (case map_of (zip ''abcdefghijklmnopqrstuvwxyz'' ''ABCDEFGHIJKLMNOPQRSTUVWXYZ'') c of
        None \<Rightarrow> c
      | Some u \<Rightarrow> u)"

definition upper :: "string \<Rightarrow> string" where
  "upper s = map upper_char s"

text \<open>Python compares strings code point by code point; a proper prefix is smaller.\<close>

fun str_le :: "string \<Rightarrow> string \<Rightarrow> bool" where
  "str_le [] t = True"
| "str_le (c # s) [] = False"
| "str_le (c # s) (d # t) = (if c = d then str_le s t else (of_char c :: nat) < of_char d)"

definition str_ge :: "string \<Rightarrow> string \<Rightarrow> bool" where
  "str_ge s t = str_le t s"


subsection \<open>Items as gh prints them\<close>

text \<open>
  An item is the dict decoded from one element of gh's JSON output. A key may be absent
  (\<open>None\<close>): the script reads every key but \<^verbatim>\<open>number\<close> with \<^verbatim>\<open>.get\<close> and a default.
\<close>

record label =
  name :: "string option"

record author =
  login :: "string option"

record item =
  number :: "int option"
  title :: "string option"
  state :: "string option"
  createdAt :: "string option"
  updatedAt :: "string option"
  labels :: "label list option"
  author :: "author option"
  body :: "string option"

definition get_str :: "string option \<Rightarrow> string" where
  "get_str v = (case v of None \<Rightarrow> [] | Some s \<Rightarrow> s)"

text \<open>What \<^verbatim>\<open>json.loads\<close> does with a text.\<close>

datatype loads_result =
    Loaded "item list" | Loads_JSONDecodeError | Loads_RecursionError | Loads_ValueError

datatype ItemState = ItemState_ALL | ItemState_OPEN | ItemState_CLOSED

fun ItemState_value :: "ItemState \<Rightarrow> string" where
  "ItemState_value ItemState_ALL = ''all''"
| "ItemState_value ItemState_OPEN = ''open''"
| "ItemState_value ItemState_CLOSED = ''closed''"

datatype OutputFormat = OutputFormat_JSON | OutputFormat_TABLE | OutputFormat_COUNT

definition BATCH_SIZE :: nat where
  "BATCH_SIZE = 500"

subsection \<open>Timestamps\<close>

text \<open>An aware \<^verbatim>\<open>datetime\<close> in UTC, by its fields.\<close>

record datetime =
  year :: nat
  month :: nat
  day :: nat
  hour :: nat
  minute :: nat
  second :: nat
  microsecond :: nat

text \<open>
  \<^verbatim>\<open>datetime.isoformat()\<close> for UTC: \<^verbatim>\<open>YYYY-MM-DDTHH:MM:SS+00:00\<close>, with
  \<^verbatim>\<open>.ffffff\<close> after the seconds when the microseconds are not zero.
\<close>

definition stamp :: "datetime \<Rightarrow> string" where
  "stamp d = zero_pad 4 (year d) @ ''-'' @ zero_pad 2 (month d) @ ''-'' @ zero_pad 2 (day d) @ ''T''
     @ zero_pad 2 (hour d) @ '':'' @ zero_pad 2 (minute d) @ '':'' @ zero_pad 2 (second d)"

definition isoformat :: "datetime \<Rightarrow> string" where
  "isoformat d = stamp d
     @ (if microsecond d \<noteq> 0 then ''.'' @ zero_pad 6 (microsecond d) else [])
     @ ''+00:00''"

subsection \<open>The external client\<close>

type_synonym 'w gh =
  "'w \<Rightarrow> string list \<Rightarrow> (string option \<times> string option \<times> int) option \<times> 'w"

text \<open>
  \<^verbatim>\<open>run_gh_command\<close> starts the program, waits for it and decodes both outputs, the
  standard output first; \<^verbatim>\<open>bytes.decode()\<close> raises \<^verbatim>\<open>UnicodeDecodeError\<close>.
\<close>

definition run_gh_command ::
  "'w gh \<Rightarrow> 'w \<Rightarrow> string list \<Rightarrow> (py_error + string \<times> string \<times> int) \<times> 'w" where
  "run_gh_command gh w args =
     (case gh w args of
        (None, w') \<Rightarrow> (Inl OSError, w')
      | (Some (out, err, returncode), w') \<Rightarrow>
          (case out of
             None \<Rightarrow> (Inl UnicodeDecodeError, w')
           | Some stdout \<Rightarrow>
               (case err of
                  None \<Rightarrow> (Inl UnicodeDecodeError, w')
                | Some stderr \<Rightarrow> (Inr (stdout, stderr, returncode), w'))))"

definition repo_view_cmd :: "string list" where
  "repo_view_cmd = [''repo'', ''view'', ''--json'', ''nameWithOwner'', ''-q'', ''.nameWithOwner'']"

definition repo_error_line :: "string \<Rightarrow> string" where
  "repo_error_line stderr = ''[red]Error getting current repo: '' @ stderr @ ''[/red]''"

definition get_current_repo :: "'w gh \<Rightarrow> 'w \<Rightarrow> (py_error + string) \<times> string list \<times> string list \<times> 'w" where
  "get_current_repo gh w =
     (case run_gh_command gh w repo_view_cmd of
        (Inl e, w') \<Rightarrow> (Inl e, [], repo_view_cmd, w')
      | (Inr (stdout, stderr, code), w') \<Rightarrow>
          if code \<noteq> 0
          then (Inl (Exit 1), [repo_error_line stderr], repo_view_cmd, w')
          else (Inr (strip stdout), [], repo_view_cmd, w'))"

subsection \<open>One page\<close>

definition page_cmd :: "string \<Rightarrow> string \<Rightarrow> string \<Rightarrow> nat \<Rightarrow> string \<Rightarrow> string list" where
  "page_cmd repo item_type state_v limit search_filter =
     [item_type, ''list'', ''--repo'', repo, ''--state'', state_v, ''--limit'', str_nat limit,
      ''--json'', ''number,title,state,createdAt,updatedAt,labels,author,body'']
     @ (if search_filter \<noteq> [] then [''--search'', search_filter] else [])"

definition fetch_error_line :: "string \<Rightarrow> string \<Rightarrow> string" where
  "fetch_error_line item_type stderr = ''[red]Error fetching '' @ item_type @ ''s: '' @ stderr @ ''[/red]''"

definition parse_error_line :: "string \<Rightarrow> string" where
  "parse_error_line item_type = ''[red]Error parsing '' @ item_type @ '' response[/red]''"

text \<open>
  The page, or the exception that leaves \<^verbatim>\<open>fetch_items_page\<close>: only
  \<^verbatim>\<open>json.JSONDecodeError\<close> is caught.
\<close>

definition fetch_items_page ::
  "'w gh \<Rightarrow> (string \<Rightarrow> loads_result) \<Rightarrow> 'w \<Rightarrow> string \<Rightarrow> string \<Rightarrow> string \<Rightarrow> nat \<Rightarrow> string
   \<Rightarrow> (py_error + item list) \<times> string list \<times> string list \<times> 'w" where
  "fetch_items_page gh json_loads w repo item_type state_v limit search_filter =
     (let cmd = page_cmd repo item_type state_v limit search_filter in
      case run_gh_command gh w cmd of
        (Inl e, w') \<Rightarrow> (Inl e, [], cmd, w')
      | (Inr (stdout, stderr, code), w') \<Rightarrow>
          if code \<noteq> 0
          then (Inr [], [fetch_error_line item_type stderr], cmd, w')
          else if strip stdout = [] then (Inr [], [], cmd, w')
          else (case json_loads stdout of
                  Loaded items \<Rightarrow> (Inr items, [], cmd, w')
                | Loads_JSONDecodeError \<Rightarrow> (Inr [], [parse_error_line item_type], cmd, w')
                | Loads_RecursionError \<Rightarrow> (Inl RecursionError, [], cmd, w')
                | Loads_ValueError \<Rightarrow> (Inl ValueError, [], cmd, w')))"

subsection \<open>All pages\<close>

text \<open>
  \<^verbatim>\<open>existing_numbers = {item["number"] for item in all_items}\<close> and
  \<^verbatim>\<open>new_items = [item for item in items if item["number"] not in existing_numbers]\<close>:
  an item without the key raises \<^verbatim>\<open>KeyError\<close>.
\<close>

definition existing_numbers :: "item list \<Rightarrow> py_error + int list" where
  "existing_numbers all_items =
     (case those (map number all_items) of
        None \<Rightarrow> Inl (KeyError ''number'')
      | Some ns \<Rightarrow> Inr ns)"

definition new_items :: "int list \<Rightarrow> item list \<Rightarrow> py_error + item list" where
  "new_items existing items =
     (case those (map number items) of
        None \<Rightarrow> Inl (KeyError ''number'')
      | Some _ \<Rightarrow> Inr (filter (\<lambda>it. case number it of None \<Rightarrow> False | Some n \<Rightarrow> n \<notin> set existing) items))"

definition page_line :: "nat \<Rightarrow> nat \<Rightarrow> nat \<Rightarrow> nat \<Rightarrow> string" where
  "page_line page fetched_count added total_len =
     ''[dim]Page '' @ str_nat page @ '': fetched '' @ str_nat fetched_count @ '', added ''
       @ str_nat added @ '' new (total: '' @ str_nat total_len @ '')[/dim]''"

definition safety_line :: string where
  "safety_line = ''[yellow]Safety limit reached (20 pages)[/yellow]''"

text \<open>
  The \<^verbatim>\<open>while fetched_count == BATCH_SIZE\<close> loop, entered with the accumulator, the page
  counter and the size of the last page. It returns the accumulator (or the exception),
  the lines printed and the commands issued by the loop, and the world.
\<close>

function paginate ::
  "'w gh \<Rightarrow> (string \<Rightarrow> loads_result) \<Rightarrow> string \<Rightarrow> string \<Rightarrow> string
   \<Rightarrow> 'w \<Rightarrow> item list \<Rightarrow> nat \<Rightarrow> nat
   \<Rightarrow> (py_error + item list) \<times> string list \<times> string list list \<times> 'w" where
  "paginate gh json_loads repo item_type state_v w all_items page fetched_count =
     (if fetched_count \<noteq> BATCH_SIZE then (Inr all_items, [], [], w)
      else if all_items = [] then (Inl IndexError, [], [], w)
      else if get_str (createdAt (last all_items)) = [] then (Inr all_items, [], [], w)
      else
        (case fetch_items_page gh json_loads w repo item_type state_v BATCH_SIZE
                (''created:<'' @ get_str (createdAt (last all_items))) of
           (Inl e, msgs, cmd, w') \<Rightarrow> (Inl e, msgs, [cmd], w')
         | (Inr items, msgs, cmd, w') \<Rightarrow>
             if length items = 0 then (Inr all_items, msgs, [cmd], w')
             else
               (case existing_numbers all_items of
                  Inl e \<Rightarrow> (Inl e, msgs, [cmd], w')
                | Inr existing \<Rightarrow>
                    (case new_items existing items of
                       Inl e \<Rightarrow> (Inl e, msgs, [cmd], w')
                     | Inr new \<Rightarrow>
                         if page + 1 > 20
                         then (Inr (all_items @ new),
                               msgs @ [page_line (page + 1) (length items) (length new)
                                         (length (all_items @ new)), safety_line],
                               [cmd], w')
                         else
                           (case paginate gh json_loads repo item_type state_v w'
                                   (all_items @ new) (page + 1) (length items) of
                              (r, out, cmds, w'') \<Rightarrow>
                                (r, msgs @ [page_line (page + 1) (length items) (length new)
                                              (length (all_items @ new))] @ out,
                                 cmd # cmds, w''))))))"
  by pat_completeness auto
termination
  by (relation "measure (\<lambda>(gh, json_loads, repo, item_type, state_v, w, all_items, page, fetched_count). 21 - page)") auto

declare paginate.simps [simp del]

definition first_page_line :: "nat \<Rightarrow> nat \<Rightarrow> string \<Rightarrow> string" where
  "first_page_line page fetched_count item_type =
     ''[dim]Page '' @ str_nat page @ '': fetched '' @ str_nat fetched_count @ '' '' @ item_type @ ''s[/dim]''"

text \<open>
  The filter on \<^verbatim>\<open>hours\<close>:
  \<^verbatim>\<open>item.get("createdAt", "") >= cutoff_str or item.get("updatedAt", "") >= cutoff_str\<close>.
\<close>

definition recent :: "string \<Rightarrow> item \<Rightarrow> bool" where
  "recent cutoff_str it =
     (str_ge (get_str (createdAt it)) cutoff_str \<or> str_ge (get_str (updatedAt it)) cutoff_str)"

definition filtered_line :: "nat \<Rightarrow> int \<Rightarrow> string" where
  "filtered_line filtered_count hours =
     ''[dim]Filtered out '' @ str_nat filtered_count @ '' items older than '' @ str_int hours @ '' hours[/dim]''"

definition fetch_all_items ::
  "'w gh \<Rightarrow> (string \<Rightarrow> loads_result) \<Rightarrow> ('w \<Rightarrow> int \<Rightarrow> datetime option)
   \<Rightarrow> 'w \<Rightarrow> string \<Rightarrow> string \<Rightarrow> string \<Rightarrow> int option
   \<Rightarrow> (py_error + item list) \<times> string list \<times> string list list \<times> 'w" where
  "fetch_all_items gh json_loads hours_ago w repo item_type state_v hours =
     (case fetch_items_page gh json_loads w repo item_type state_v BATCH_SIZE [] of
        (Inl e, msgs, cmd, w1) \<Rightarrow> (Inl e, msgs, [cmd], w1)
      | (Inr items, msgs, cmd, w1) \<Rightarrow>
          (case paginate gh json_loads repo item_type state_v w1 items 1 (length items) of
             (r, out, cmds, w2) \<Rightarrow>
               (case r of
                  Inl e \<Rightarrow>
                    (Inl e, msgs @ [first_page_line 1 (length items) item_type] @ out, cmd # cmds, w2)
                | Inr all_items \<Rightarrow>
                    (case hours of
                       None \<Rightarrow>
                         (Inr all_items, msgs @ [first_page_line 1 (length items) item_type] @ out,
                          cmd # cmds, w2)
                     | Some h \<Rightarrow>
                         (case hours_ago w2 h of
                            None \<Rightarrow>
                              (Inl OverflowError,
                               msgs @ [first_page_line 1 (length items) item_type] @ out, cmd # cmds, w2)
                          | Some cutoff \<Rightarrow>
                              (let cutoff_str = isoformat cutoff;
                                   kept = filter (recent cutoff_str) all_items;
                                   filtered_count = length all_items - length kept
                               in (Inr kept,
                                   msgs @ [first_page_line 1 (length items) item_type] @ out
                                     @ (if filtered_count > 0 then [filtered_line filtered_count h]
                                        else []),
                                   cmd # cmds, w2)))))))"

subsection \<open>The table presenter\<close>

text \<open>
  What \<^verbatim>\<open>display_table\<close> hands to Rich: the table with its title, its columns and the
  cells of each row. How Rich lays the table out on the terminal is not modelled.
\<close>

record column =
  col_header :: string
  col_style :: string
  col_width :: "nat option"
  col_max_width :: "nat option"

record rich_table =
  table_title :: string
  table_columns :: "column list"
  table_rows :: "string list list"

datatype printable = Line string | Table rich_table | Panel string string string

text \<open>\<^verbatim>\<open>sep.join(xs)\<close>.\<close>

fun join :: "string \<Rightarrow> string list \<Rightarrow> string" where
  "join sep [] = []"
| "join sep [x] = x"
| "join sep (x # y # ys) = x @ sep @ join sep (y # ys)"

definition joined_labels :: "item \<Rightarrow> string" where
  "joined_labels it =
     join '', '' (map (\<lambda>l. get_str (name l)) (case labels it of None \<Rightarrow> [] | Some ls \<Rightarrow> ls))"

definition author_login :: "item \<Rightarrow> string" where
  "author_login it =
     (case author it of
        None \<Rightarrow> ''unknown''
      | Some a \<Rightarrow> (case login a of None \<Rightarrow> ''unknown'' | Some l \<Rightarrow> l))"

definition table_row :: "item \<Rightarrow> string list" where
  "table_row it =
     [case number it of None \<Rightarrow> [] | Some n \<Rightarrow> str_int n,
      if length (get_str (title it)) > 50 then take 47 (get_str (title it)) @ ''...''
      else get_str (title it),
      get_str (state it),
      author_login it,
      if length (joined_labels it) > 30 then take 27 (joined_labels it) @ ''...''
      else joined_labels it,
      take 10 (get_str (updatedAt it))]"

definition table_header :: "column list" where
  "table_header =
     [\<lparr>col_header = ''#'', col_style = ''cyan'', col_width = Some 6, col_max_width = None\<rparr>,
      \<lparr>col_header = ''Title'', col_style = ''white'', col_width = None, col_max_width = Some 50\<rparr>,
      \<lparr>col_header = ''State'', col_style = ''green'', col_width = Some 8, col_max_width = None\<rparr>,
      \<lparr>col_header = ''Author'', col_style = ''yellow'', col_width = Some 15, col_max_width = None\<rparr>,
      \<lparr>col_header = ''Labels'', col_style = ''magenta'', col_width = None, col_max_width = Some 30\<rparr>,
      \<lparr>col_header = ''Updated'', col_style = ''dim'', col_width = Some 12, col_max_width = None\<rparr>]"

definition more_items_line :: "nat \<Rightarrow> string" where
  "more_items_line n = ''[dim]... and '' @ str_nat n @ '' more items[/dim]''"

text \<open>
  \<^verbatim>\<open>display_table\<close> returns nothing; the model returns what it prints, and the list
  \<^verbatim>\<open>items\<close> as the call leaves it (the function only reads it: \<^verbatim>\<open>items[:50]\<close> is a copy).
\<close>

definition display_table :: "item list \<Rightarrow> string \<Rightarrow> printable list \<times> item list" where
  "display_table items item_type =
     ([Table \<lparr>table_title = upper item_type @ ''s ('' @ str_nat (length items) @ '' total)'',
              table_columns = table_header,
              table_rows = map table_row (take 50 items)\<rparr>]
      @ (if length items > 50 then [Line (more_items_line (length items - 50))] else []),
      items)"

subsection \<open>The commands\<close>

text \<open>\<^verbatim>\<open>repo or await get_current_repo()\<close>: an empty \<^verbatim>\<open>--repo\<close> counts as none.\<close>

definition resolve_target ::
  "'w gh \<Rightarrow> 'w \<Rightarrow> string option \<Rightarrow> (py_error + string) \<times> string list \<times> string list list \<times> 'w" where
  "resolve_target gh w repo =
     (case repo of
        Some r \<Rightarrow>
          if r \<noteq> [] then (Inr r, [], [], w)
          else (case get_current_repo gh w of (res, msgs, cmd, w') \<Rightarrow> (res, msgs, [cmd], w'))
      | None \<Rightarrow> (case get_current_repo gh w of (res, msgs, cmd, w') \<Rightarrow> (res, msgs, [cmd], w')))"

text \<open>The rule of the banner is 46 times U+2501, the mark of the panel U+2713 (in UTF-8).\<close>

definition rule_line :: string where
  "rule_line = ''[cyan]'' @ concat (replicate 46 [char_of (226::nat), char_of (148::nat), char_of (129::nat)])
     @ ''[/cyan]''"

definition check_mark :: string where
  "check_mark = [char_of (226::nat), char_of (156::nat), char_of (147::nat)]"

definition time_filter :: "int option \<Rightarrow> string" where
  "time_filter hours =
     (case hours of
        None \<Rightarrow> ''All time''
      | Some h \<Rightarrow> if h \<noteq> 0 then ''Last '' @ str_int h @ '' hours'' else ''All time'')"

definition banner :: "string \<Rightarrow> string \<Rightarrow> int option \<Rightarrow> bool \<Rightarrow> string" where
  "banner target_repo state_value hours both =
     ''\<newline>'' @ rule_line @ ''\<newline>''
     @ ''[cyan]Repository:[/cyan] '' @ target_repo @ ''\<newline>''
     @ ''[cyan]State:[/cyan] '' @ state_value @ ''\<newline>''
     @ ''[cyan]Time filter:[/cyan] '' @ time_filter hours @ ''\<newline>''
     @ (if both then ''[cyan]Fetching:[/cyan] Issues AND PRs\<newline>'' else [])
     @ rule_line @ ''\<newline>''"

definition complete_panel :: "string \<Rightarrow> printable" where
  "complete_panel found =
     Panel (''[green]'' @ check_mark @ '' Found '' @ found @ ''[/green]'')
       ''[green]Pagination Complete[/green]'' ''green''"

text \<open>
  A command takes the options as typer hands them over; \<open>None\<close> for \<^verbatim>\<open>--state\<close> or
  \<^verbatim>\<open>--output\<close> is an option left out, which takes the default of the signature.
  \<open>json_dumps\<close> is \<^verbatim>\<open>json.dumps(items, indent=2, ensure_ascii=False)\<close>.
\<close>

definition issues ::
  "'w gh \<Rightarrow> (string \<Rightarrow> loads_result) \<Rightarrow> (item list \<Rightarrow> string) \<Rightarrow> ('w \<Rightarrow> int \<Rightarrow> datetime option)
   \<Rightarrow> 'w \<Rightarrow> string option \<Rightarrow> ItemState option \<Rightarrow> int option \<Rightarrow> OutputFormat option
   \<Rightarrow> (py_error + unit) \<times> printable list \<times> string list list \<times> 'w" where
  "issues gh json_loads json_dumps hours_ago w repo state_opt hours output_opt =
     (let state_p = (case state_opt of None \<Rightarrow> ItemState_ALL | Some s \<Rightarrow> s);
          output = (case output_opt of None \<Rightarrow> OutputFormat_TABLE | Some f \<Rightarrow> f)
      in case resolve_target gh w repo of
           (Inl e, msgs, cmds, w1) \<Rightarrow> (Inl e, map Line msgs, cmds, w1)
         | (Inr target_repo, msgs, cmds, w1) \<Rightarrow>
             (case fetch_all_items gh json_loads hours_ago w1 target_repo ''issue''
                     (ItemState_value state_p) hours of
                (Inl e, out, cmds2, w2) \<Rightarrow>
                  (Inl e,
                   map Line (msgs @ [banner target_repo (ItemState_value state_p) hours False] @ out),
                   cmds @ cmds2, w2)
              | (Inr items, out, cmds2, w2) \<Rightarrow>
                  (Inr (),
                   map Line (msgs @ [banner target_repo (ItemState_value state_p) hours False] @ out)
                   @ [complete_panel (str_nat (length items) @ '' issues'')]
                   @ (case output of
                        OutputFormat_JSON \<Rightarrow> [Line (json_dumps items)]
                      | OutputFormat_TABLE \<Rightarrow> fst (display_table items ''issue'')
                      | OutputFormat_COUNT \<Rightarrow> [Line (''Total issues: '' @ str_nat (length items))]),
                   cmds @ cmds2, w2)))"

definition prs ::
  "'w gh \<Rightarrow> (string \<Rightarrow> loads_result) \<Rightarrow> (item list \<Rightarrow> string) \<Rightarrow> ('w \<Rightarrow> int \<Rightarrow> datetime option)
   \<Rightarrow> 'w \<Rightarrow> string option \<Rightarrow> ItemState option \<Rightarrow> int option \<Rightarrow> OutputFormat option
   \<Rightarrow> (py_error + unit) \<times> printable list \<times> string list list \<times> 'w" where
  "prs gh json_loads json_dumps hours_ago w repo state_opt hours output_opt =
     (let state_p = (case state_opt of None \<Rightarrow> ItemState_OPEN | Some s \<Rightarrow> s);
          output = (case output_opt of None \<Rightarrow> OutputFormat_TABLE | Some f \<Rightarrow> f)
      in case resolve_target gh w repo of
           (Inl e, msgs, cmds, w1) \<Rightarrow> (Inl e, map Line msgs, cmds, w1)
         | (Inr target_repo, msgs, cmds, w1) \<Rightarrow>
             (case fetch_all_items gh json_loads hours_ago w1 target_repo ''pr''
                     (ItemState_value state_p) hours of
                (Inl e, out, cmds2, w2) \<Rightarrow>
                  (Inl e,
                   map Line (msgs @ [banner target_repo (ItemState_value state_p) hours False] @ out),
                   cmds @ cmds2, w2)
              | (Inr items, out, cmds2, w2) \<Rightarrow>
                  (Inr (),
                   map Line (msgs @ [banner target_repo (ItemState_value state_p) hours False] @ out)
                   @ [complete_panel (str_nat (length items) @ '' PRs'')]
                   @ (case output of
                        OutputFormat_JSON \<Rightarrow> [Line (json_dumps items)]
                      | OutputFormat_TABLE \<Rightarrow> fst (display_table items ''pr'')
                      | OutputFormat_COUNT \<Rightarrow> [Line (''Total PRs: '' @ str_nat (length items))]),
                   cmds @ cmds2, w2)))"

text \<open>
  The command \<^verbatim>\<open>all\<close> runs its two fetches under \<^verbatim>\<open>asyncio.gather\<close>, which starts the
  fetch of the issues first and may interleave the queries of the two fetches at their
  awaits. The model fixes one of these orders: it runs the fetches one after the other,
  issues first, and does not start the second when the first raises. \<open>json_dumps_all\<close> is
  \<^verbatim>\<open>json.dumps\<close> on the dict of both lists.
\<close>

definition fetch_all ::
  "'w gh \<Rightarrow> (string \<Rightarrow> loads_result) \<Rightarrow> (item list \<Rightarrow> item list \<Rightarrow> string) \<Rightarrow> ('w \<Rightarrow> int \<Rightarrow> datetime option)
   \<Rightarrow> 'w \<Rightarrow> string option \<Rightarrow> ItemState option \<Rightarrow> int option \<Rightarrow> OutputFormat option
   \<Rightarrow> (py_error + unit) \<times> printable list \<times> string list list \<times> 'w" where
  "fetch_all gh json_loads json_dumps_all hours_ago w repo state_opt hours output_opt =
     (let state_p = (case state_opt of None \<Rightarrow> ItemState_ALL | Some s \<Rightarrow> s);
          output = (case output_opt of None \<Rightarrow> OutputFormat_TABLE | Some f \<Rightarrow> f)
      in case resolve_target gh w repo of
           (Inl e, msgs, cmds, w1) \<Rightarrow> (Inl e, map Line msgs, cmds, w1)
         | (Inr target_repo, msgs, cmds, w1) \<Rightarrow>
             (case fetch_all_items gh json_loads hours_ago w1 target_repo ''issue''
                     (ItemState_value state_p) hours of
                (Inl e, out, cmds2, w2) \<Rightarrow>
                  (Inl e,
                   map Line (msgs @ [banner target_repo (ItemState_value state_p) hours True] @ out),
                   cmds @ cmds2, w2)
              | (Inr issues_items, out, cmds2, w2) \<Rightarrow>
                  (case fetch_all_items gh json_loads hours_ago w2 target_repo ''pr''
                          (ItemState_value state_p) hours of
                     (Inl e, out3, cmds3, w3) \<Rightarrow>
                       (Inl e,
                        map Line (msgs @ [banner target_repo (ItemState_value state_p) hours True]
                                  @ out @ out3),
                        cmds @ cmds2 @ cmds3, w3)
                   | (Inr prs_items, out3, cmds3, w3) \<Rightarrow>
                       (Inr (),
                        map Line (msgs @ [banner target_repo (ItemState_value state_p) hours True]
                                  @ out @ out3)
                        @ [complete_panel (str_nat (length issues_items) @ '' issues and ''
                                           @ str_nat (length prs_items) @ '' PRs'')]
                        @ (case output of
                             OutputFormat_JSON \<Rightarrow> [Line (json_dumps_all issues_items prs_items)]
                           | OutputFormat_TABLE \<Rightarrow>
                               fst (display_table issues_items ''issue'') @ [Line []]
                               @ fst (display_table prs_items ''pr'')
                           | OutputFormat_COUNT \<Rightarrow>
                               [Line (''Total issues: '' @ str_nat (length issues_items)),
                                Line (''Total PRs: '' @ str_nat (length prs_items))]),
                        cmds @ cmds2 @ cmds3, w3))))"

section \<open>Notions the properties are stated with\<close>

text \<open>The parts of a run: what it returns or raises, what it prints, the commands it issues.\<close>

definition outcome :: "'a \<times> 'b \<times> 'c \<times> 'd \<Rightarrow> 'a" where
  "outcome run = fst run"

definition printed :: "'a \<times> 'b \<times> 'c \<times> 'd \<Rightarrow> 'b" where
  "printed run = fst (snd run)"

definition issued :: "'a \<times> 'b \<times> 'c \<times> 'd \<Rightarrow> 'c" where
  "issued run = fst (snd (snd run))"





text \<open>
  A timestamp as gh prints it: UTC, whole seconds, suffix \<open>Z\<close>, as in
  \<^verbatim>\<open>2024-01-15T10:30:00Z\<close>.
\<close>

definition gh_timestamp :: "datetime \<Rightarrow> string" where
  "gh_timestamp d = stamp d @ ''Z''"

definition valid_datetime :: "datetime \<Rightarrow> bool" where
  "valid_datetime d =
     (1 \<le> year d \<and> year d \<le> 9999 \<and> 1 \<le> month d \<and> month d \<le> 12 \<and> 1 \<le> day d \<and> day d \<le> 31
      \<and> hour d < 24 \<and> minute d < 60 \<and> second d < 60 \<and> microsecond d < 1000000)"

text \<open>The order of instants: field by field, the first difference decides.\<close>

fun fields_le :: "nat list \<Rightarrow> nat list \<Rightarrow> bool" where
  "fields_le [] ys = True"
| "fields_le (x # xs) [] = False"
| "fields_le (x # xs) (y # ys) = (if x = y then fields_le xs ys else x < y)"

definition date_fields :: "datetime \<Rightarrow> nat list" where
  "date_fields d = [year d, month d, day d, hour d, minute d, second d]"

text \<open>\<open>not_before t c\<close>: the instant \<open>t\<close> is the instant \<open>c\<close> or a later one.\<close>

definition not_before :: "datetime \<Rightarrow> datetime \<Rightarrow> bool" where
  "not_before t c = fields_le (date_fields c @ [microsecond c]) (date_fields t @ [microsecond t])"

text \<open>\<open>not_before_second t c\<close>: the same, with both instants cut down to whole seconds.\<close>

definition not_before_second :: "datetime \<Rightarrow> datetime \<Rightarrow> bool" where
  "not_before_second t c = fields_le (date_fields c) (date_fields t)"

section \<open>Example backends\<close>

definition demo_item :: "int \<Rightarrow> string \<Rightarrow> item" where
  "demo_item n created =
     \<lparr>number = Some n, title = Some ''t'', state = Some ''open'', createdAt = Some created,
      updatedAt = Some created, labels = Some [], author = None, body = None\<rparr>"

text \<open>A client that always exits with code 0 and prints the same text.\<close>

definition const_gh :: "string \<Rightarrow> unit gh" where
  "const_gh s = (\<lambda>w args. (Some (Some s, Some [], 0), w))"

definition demo_time :: datetime where
  "demo_time = \<lparr>year = 2024, month = 1, day = 15, hour = 10, minute = 30, second = 0, microsecond = 500000\<rparr>"

text \<open>A clock whose cutoff is the same instant whatever the window.\<close>

definition fixed_clock :: "datetime \<Rightarrow> 'w \<Rightarrow> int \<Rightarrow> datetime option" where
  "fixed_clock d = (\<lambda>w h. Some d)"

definition full_page :: "item list" where
  "full_page = map (\<lambda>n. demo_item (int n) ''2024-01-01T00:00:00Z'') [0..<499]
     @ [demo_item 499 ''2024-06-01T00:00:00Z'']"




definition short_page :: "item list" where
  "short_page = [demo_item 12 ''2024-03-02T00:00:00Z'', demo_item 11 ''2024-03-01T00:00:00Z'']"







text \<open>Two instants around the cutoff \<open>demo_time\<close>, and a page with an item of each.\<close>

definition late_time :: datetime where
  "late_time = \<lparr>year = 2024, month = 1, day = 15, hour = 10, minute = 30, second = 0, microsecond = 0\<rparr>"

definition early_time :: datetime where
  "early_time = \<lparr>year = 2024, month = 1, day = 15, hour = 10, minute = 29, second = 59, microsecond = 0\<rparr>"

definition window_page :: "item list" where
  "window_page = [demo_item 3 ''2024-01-15T10:30:00Z'', demo_item 2 ''2024-01-15T10:29:59Z'']"

section \<open>Properties\<close>


lemma those_map_Some: "those (map Some xs) = Some xs"
  by (induction xs) auto







lemma fetch_items_page_cmd:
  assumes "fetch_items_page gh json_loads w repo item_type state_v limit search_filter = (r, msgs, cmd, w')"
  shows "cmd = page_cmd repo item_type state_v limit search_filter"
  using assms
  by (auto simp: fetch_items_page_def Let_def split: prod.splits if_splits sum.splits loads_result.splits)



lemma paginate_idle:
  "fetched_count \<noteq> BATCH_SIZE \<Longrightarrow>
   paginate gh json_loads repo item_type state_v w all_items page fetched_count = (Inr all_items, [], [], w)"
  by (simp add: paginate.simps)

lemma paginate_unfold:
  assumes "fetched_count = BATCH_SIZE" and "all_items \<noteq> []"
      and "get_str (createdAt (last all_items)) \<noteq> []"
      and f: "fetch_items_page gh json_loads w repo item_type state_v BATCH_SIZE
             (''created:<'' @ get_str (createdAt (last all_items))) = (Inr items, msgs, cmd, w1)"
  shows "paginate gh json_loads repo item_type state_v w all_items page fetched_count =
     (if items = [] then (Inr all_items, msgs, [cmd], w1)
      else case existing_numbers all_items of
        Inl e \<Rightarrow> (Inl e, msgs, [cmd], w1)
      | Inr existing \<Rightarrow>
          (case new_items existing items of
             Inl e \<Rightarrow> (Inl e, msgs, [cmd], w1)
           | Inr new \<Rightarrow>
               if 20 \<le> page
               then (Inr (all_items @ new),
                     msgs @ [page_line (page + 1) (length items) (length new) (length (all_items @ new)),
                             safety_line], [cmd], w1)
               else (case paginate gh json_loads repo item_type state_v w1 (all_items @ new) (page + 1)
                            (length items) of
                       (r, out, cmds, w'') \<Rightarrow>
                         (r, msgs @ [page_line (page + 1) (length items) (length new)
                                      (length (all_items @ new))] @ out,
                          cmd # cmds, w''))))"
  unfolding paginate.simps[of gh json_loads repo item_type state_v w all_items page fetched_count] f
  using assms(1-3) by (auto split: sum.splits)

lemma paginate_raise:
  assumes "fetched_count = BATCH_SIZE" and "all_items \<noteq> []"
      and "get_str (createdAt (last all_items)) \<noteq> []"
      and f: "fetch_items_page gh json_loads w repo item_type state_v BATCH_SIZE
             (''created:<'' @ get_str (createdAt (last all_items))) = (Inl e, msgs, cmd, w1)"
  shows "paginate gh json_loads repo item_type state_v w all_items page fetched_count
           = (Inl e, msgs, [cmd], w1)"
  unfolding paginate.simps[of gh json_loads repo item_type state_v w all_items page fetched_count] f
  using assms(1-3) by simp






lemma paginate_issued_bound:
  "length (issued (paginate gh json_loads repo item_type state_v w all_items page fetched_count))
     \<le> Suc (20 - page)"
proof (induction gh json_loads repo item_type state_v w all_items page fetched_count
         rule: paginate.induct)
  case (1 gh json_loads repo item_type state_v w all_items page fetched_count)
  show ?case
  proof (cases "fetched_count \<noteq> BATCH_SIZE \<or> all_items = [] \<or> get_str (createdAt (last all_items)) = []")
    case True
    then show ?thesis
      by (subst paginate.simps) (auto simp: issued_def)
  next
    case False
    obtain r0 msgs cmd w1 where f0: "fetch_items_page gh json_loads w repo item_type state_v BATCH_SIZE
             (''created:<'' @ get_str (createdAt (last all_items))) = (r0, msgs, cmd, w1)"
      by (cases "fetch_items_page gh json_loads w repo item_type state_v BATCH_SIZE
             (''created:<'' @ get_str (createdAt (last all_items)))") auto
    from False have c: "\<not> fetched_count \<noteq> BATCH_SIZE" "all_items \<noteq> []"
      "get_str (createdAt (last all_items)) \<noteq> []" by auto
    from c(1) have c1: "fetched_count = BATCH_SIZE" by simp
    show ?thesis
    proof (cases r0)
      case (Inl e)
      show ?thesis
        unfolding paginate_raise[OF c1 c(2,3) f0[unfolded Inl], of page] by (simp add: issued_def)
    next
      case (Inr items)
      note f = f0[unfolded Inr]
      note u = paginate_unfold[OF c1 c(2,3) f, of page]
      show ?thesis
      proof (cases "\<exists>existing new. items \<noteq> [] \<and> existing_numbers all_items = Inr existing
                      \<and> new_items existing items = Inr new \<and> page < 20")
        case True
        then obtain existing new where ne: "items \<noteq> []"
          and e: "existing_numbers all_items = Inr existing"
          and n: "new_items existing items = Inr new" and small: "page < 20" by blast
        from ne have l: "length items \<noteq> 0" by simp
        from small have s: "\<not> 20 < page + 1" by simp
        note ih = "1.IH"[OF c f[symmetric] refl refl refl l e n s]
        show ?thesis
          using ne e n small ih
          by (auto simp: u issued_def split: prod.splits)
      next
        case stop: False
        then show ?thesis
          by (auto simp: u issued_def split: prod.splits sum.splits)
      qed
    qed
  qed
qed


lemma paginate_commands:
  "cmd \<in> set (issued (paginate gh json_loads repo item_type state_v w all_items page fetched_count))
   \<Longrightarrow> \<exists>f. cmd = page_cmd repo item_type state_v BATCH_SIZE f"
proof (induction gh json_loads repo item_type state_v w all_items page fetched_count
         rule: paginate.induct)
  case (1 gh json_loads repo item_type state_v w all_items page fetched_count)
  note mem = "1.prems"
  show ?case
  proof (cases "fetched_count \<noteq> BATCH_SIZE \<or> all_items = [] \<or> get_str (createdAt (last all_items)) = []")
    case True
    then show ?thesis using mem
      by (subst (asm) paginate.simps) (auto simp: issued_def split: if_splits)
  next
    case False
    obtain r0 msgs c0 w1 where f0: "fetch_items_page gh json_loads w repo item_type state_v BATCH_SIZE
             (''created:<'' @ get_str (createdAt (last all_items))) = (r0, msgs, c0, w1)"
      by (cases "fetch_items_page gh json_loads w repo item_type state_v BATCH_SIZE
             (''created:<'' @ get_str (createdAt (last all_items)))") auto
    note c0 = fetch_items_page_cmd[OF f0]
    from False have c: "\<not> fetched_count \<noteq> BATCH_SIZE" "all_items \<noteq> []"
      "get_str (createdAt (last all_items)) \<noteq> []" by auto
    from c(1) have c1: "fetched_count = BATCH_SIZE" by simp
    show ?thesis
    proof (cases r0)
      case (Inl e)
      from mem have "cmd = c0"
        unfolding paginate_raise[OF c1 c(2,3) f0[unfolded Inl], of page] by (simp add: issued_def)
      with c0 show ?thesis by blast
    next
      case (Inr items)
      note f = f0[unfolded Inr]
      note u = paginate_unfold[OF c1 c(2,3) f, of page]
      show ?thesis
      proof (cases "\<exists>existing new. items \<noteq> [] \<and> existing_numbers all_items = Inr existing
                      \<and> new_items existing items = Inr new \<and> page < 20")
        case True
        then obtain existing new where ne: "items \<noteq> []"
          and e: "existing_numbers all_items = Inr existing"
          and n: "new_items existing items = Inr new" and small: "page < 20" by blast
        from ne have l: "length items \<noteq> 0" by simp
        from small have s: "\<not> 20 < page + 1" by simp
        from mem ne e n small have "cmd = c0 \<or> cmd \<in> set (issued (paginate gh json_loads repo item_type state_v w1
             (all_items @ new) (page + 1) (length items)))"
          unfolding u by (auto simp: issued_def split: prod.splits)
        then show ?thesis
          using "1.IH"[OF c f[symmetric] refl refl refl l e n s] c0 by blast
      next
        case stop: False
        with mem have "cmd = c0"
          unfolding u by (auto simp: issued_def split: prod.splits sum.splits if_splits)
        with c0 show ?thesis by blast
      qed
    qed
  qed
qed

lemma single_page_run:
  assumes "fetch_items_page gh json_loads w repo item_type state_v BATCH_SIZE [] = (Inr items, msgs, cmd, w1)"
      and "length items \<noteq> BATCH_SIZE"
  shows "fetch_all_items gh json_loads hours_ago w repo item_type state_v None
         = (Inr items, msgs @ [first_page_line 1 (length items) item_type],
            [page_cmd repo item_type state_v BATCH_SIZE []], w1)"
proof -
  have c: "cmd = page_cmd repo item_type state_v BATCH_SIZE []"
    using assms(1) by (rule fetch_items_page_cmd)
  have p: "paginate gh json_loads repo item_type state_v w1 items 1 (length items) = (Inr items, [], [], w1)"
    using assms(2) by (simp add: paginate_idle)
  show ?thesis
    unfolding fetch_all_items_def assms(1) by (simp add: p[simplified] c)
qed

lemma fetch_all_items_issued_bound:
  "length (issued (fetch_all_items gh json_loads hours_ago w repo item_type state_v hours)) \<le> 21"
proof -
  obtain r0 msgs cmd w1 where
    f: "fetch_items_page gh json_loads w repo item_type state_v BATCH_SIZE [] = (r0, msgs, cmd, w1)"
    by (cases "fetch_items_page gh json_loads w repo item_type state_v BATCH_SIZE []") auto
  show ?thesis
  proof (cases r0)
    case (Inl e)
    then show ?thesis
      by (simp add: fetch_all_items_def f issued_def)
  next
    case (Inr items)
    from paginate_issued_bound[of gh json_loads repo item_type state_v w1 items 1 "length items"]
    show ?thesis
      by (auto simp: fetch_all_items_def f Inr issued_def Let_def split: prod.splits sum.splits option.splits)
  qed
qed



lemma fetch_all_items_commands:
  "cmd \<in> set (issued (fetch_all_items gh json_loads hours_ago w repo item_type state_v hours))
   \<Longrightarrow> \<exists>f. cmd = page_cmd repo item_type state_v BATCH_SIZE f"
proof -
  assume mem: "cmd \<in> set (issued (fetch_all_items gh json_loads hours_ago w repo item_type state_v hours))"
  obtain r0 msgs c0 w1 where
    f: "fetch_items_page gh json_loads w repo item_type state_v BATCH_SIZE [] = (r0, msgs, c0, w1)"
    by (cases "fetch_items_page gh json_loads w repo item_type state_v BATCH_SIZE []") auto
  note c0 = fetch_items_page_cmd[OF f]
  show ?thesis
  proof (cases r0)
    case (Inl e)
    with mem have "cmd = c0"
      by (simp add: fetch_all_items_def f issued_def)
    with c0 show ?thesis by blast
  next
    case (Inr items)
    with mem have "cmd = c0 \<or> cmd \<in> set (issued (paginate gh json_loads repo item_type state_v w1 items 1 (length items)))"
      by (auto simp: fetch_all_items_def f issued_def Let_def split: prod.splits sum.splits option.splits)
    then show ?thesis
    proof
      assume "cmd = c0"
      with c0 show ?thesis by blast
    next
      assume "cmd \<in> set (issued (paginate gh json_loads repo item_type state_v w1 items 1 (length items)))"
      then show ?thesis by (rule paginate_commands)
    qed
  qed
qed

lemma fetch_all_items_cmd:
  "fetch_all_items gh json_loads hours_ago w repo item_type state_v hours = (res, out, cmds, w1)
   \<Longrightarrow> cmd \<in> set cmds \<Longrightarrow> \<exists>f. cmd = page_cmd repo item_type state_v BATCH_SIZE f"
  using fetch_all_items_commands[of cmd gh json_loads hours_ago w repo item_type state_v hours]
  by (simp add: issued_def)

lemma fetch_all_items_first_command:
  "\<exists>rest. issued (fetch_all_items gh json_loads hours_ago w repo item_type state_v hours)
            = page_cmd repo item_type state_v BATCH_SIZE [] # rest"
proof -
  obtain r0 msgs c0 w1 where
    f: "fetch_items_page gh json_loads w repo item_type state_v BATCH_SIZE [] = (r0, msgs, c0, w1)"
    by (cases "fetch_items_page gh json_loads w repo item_type state_v BATCH_SIZE []") auto
  note c0 = fetch_items_page_cmd[OF f]
  show ?thesis
    by (cases r0)
       (auto simp: fetch_all_items_def f c0 issued_def Let_def split: prod.splits sum.splits option.splits)
qed



lemma resolve_target_commands:
  "cmd \<in> set (issued (resolve_target gh w repo)) \<Longrightarrow> cmd = repo_view_cmd"
  by (auto simp: resolve_target_def get_current_repo_def issued_def
           split: option.splits prod.splits sum.splits if_splits)

lemma resolve_target_cmd:
  "resolve_target gh w repo = (res, msgs, cmds, w1) \<Longrightarrow> cmd \<in> set cmds \<Longrightarrow> cmd = repo_view_cmd"
  using resolve_target_commands[of cmd gh w repo] by (simp add: issued_def)




lemma issues_commands:
  assumes "cmd \<in> set (issued (issues gh json_loads json_dumps hours_ago w repo state_opt hours output_opt))"
  shows "cmd = repo_view_cmd
         \<or> (\<exists>r f. cmd = page_cmd r ''issue''
               (ItemState_value (case state_opt of None \<Rightarrow> ItemState_ALL | Some s \<Rightarrow> s)) BATCH_SIZE f)"
  using assms
  by (auto simp: issues_def issued_def Let_def split: prod.splits sum.splits
           dest: resolve_target_cmd fetch_all_items_cmd)

lemma prs_commands:
  assumes "cmd \<in> set (issued (prs gh json_loads json_dumps hours_ago w repo state_opt hours output_opt))"
  shows "cmd = repo_view_cmd
         \<or> (\<exists>r f. cmd = page_cmd r ''pr''
               (ItemState_value (case state_opt of None \<Rightarrow> ItemState_OPEN | Some s \<Rightarrow> s)) BATCH_SIZE f)"
  using assms
  by (auto simp: prs_def issued_def Let_def split: prod.splits sum.splits
           dest: resolve_target_cmd fetch_all_items_cmd)

lemma fetch_all_commands:
  assumes "cmd \<in> set (issued (fetch_all gh json_loads json_dumps_all hours_ago w repo state_opt hours output_opt))"
  shows "cmd = repo_view_cmd
         \<or> (\<exists>r t f. cmd = page_cmd r t
               (ItemState_value (case state_opt of None \<Rightarrow> ItemState_ALL | Some s \<Rightarrow> s)) BATCH_SIZE f)"
  using assms
  by (auto simp: fetch_all_def issued_def Let_def split: prod.splits sum.splits
           dest: resolve_target_cmd fetch_all_items_cmd)

lemma length_full_page: "length full_page = 500"
  by (simp add: full_page_def)

lemma length_full_page_batch: "length full_page = BATCH_SIZE"
  by (simp add: length_full_page BATCH_SIZE_def)

lemma last_full_page: "last full_page = demo_item 499 ''2024-06-01T00:00:00Z''"
  by (simp add: full_page_def)

lemma number_demo_item: "number (demo_item n c) = Some n"
  by (simp add: demo_item_def)

lemma numbers_full_page: "map number full_page = map Some (map int [0..<499] @ [499])"
  by (simp add: full_page_def number_demo_item)



lemma existing_numbers_full_page: "existing_numbers full_page = Inr (map int [0..<499] @ [499])"
  unfolding existing_numbers_def numbers_full_page those_map_Some by simp


lemma new_items_full_page_again:
  "new_items (map int [0..<499] @ [499]) full_page = Inr []"
proof -
  have "\<forall>it \<in> set full_page. \<exists>n. number it = Some n \<and> n \<in> set (map int [0..<499] @ [499])"
    by (auto simp: full_page_def number_demo_item)
  then have "filter (\<lambda>it. case number it of None \<Rightarrow> False
                 | Some n \<Rightarrow> n \<notin> set (map int [0..<499] @ [499])) full_page = []"
    by (auto simp only: filter_empty_conv split: option.splits)
  then show ?thesis
    unfolding new_items_def numbers_full_page those_map_Some by simp
qed




lemma const_gh_page:
  "fetch_items_page (const_gh ''page'') (\<lambda>s. Loaded items) () repo item_type state_v limit f
     = (Inr items, [], page_cmd repo item_type state_v limit f, ())"
  by (simp add: fetch_items_page_def run_gh_command_def const_gh_def strip_def is_space_def)

lemma short_page_not_full: "length short_page \<noteq> BATCH_SIZE"
  by (simp add: short_page_def BATCH_SIZE_def)






lemma always_full_loop:
  "page + k = 20 \<Longrightarrow>
   \<exists>out. paginate (const_gh ''page'') (\<lambda>s. Loaded full_page) repo item_type state_v () full_page page BATCH_SIZE
          = (Inr full_page, out,
             replicate (Suc k) (page_cmd repo item_type state_v BATCH_SIZE ''created:<2024-06-01T00:00:00Z''), ())
        \<and> out \<noteq> [] \<and> last out = safety_line"
proof (induction k arbitrary: page)
  case 0
  have ne: "full_page \<noteq> []" using length_full_page by auto
  have c: "get_str (createdAt (last full_page)) = ''2024-06-01T00:00:00Z''"
    by (simp add: last_full_page demo_item_def get_str_def)
  have c': "get_str (createdAt (last full_page)) \<noteq> []"
    unfolding c by simp
  note u = paginate_unfold[OF refl ne c' const_gh_page]
  from 0 show ?case
    unfolding u by (simp add: ne existing_numbers_full_page new_items_full_page_again c)
next
  case (Suc k)
  have ne: "full_page \<noteq> []" using length_full_page by auto
  have c: "get_str (createdAt (last full_page)) = ''2024-06-01T00:00:00Z''"
    by (simp add: last_full_page demo_item_def get_str_def)
  have c': "get_str (createdAt (last full_page)) \<noteq> []"
    unfolding c by simp
  note u = paginate_unfold[OF refl ne c' const_gh_page]
  from Suc.prems have p: "(page + 1) + k = 20" and small: "\<not> 20 \<le> page" by simp_all
  from Suc.IH[OF p] obtain out where
    r: "paginate (const_gh ''page'') (\<lambda>s. Loaded full_page) repo item_type state_v () full_page (page + 1) BATCH_SIZE
          = (Inr full_page, out,
             replicate (Suc k) (page_cmd repo item_type state_v BATCH_SIZE ''created:<2024-06-01T00:00:00Z''), ())"
    and o: "out \<noteq> []" "last out = safety_line" by blast
  show ?case
    unfolding u
    by (simp add: ne existing_numbers_full_page new_items_full_page_again c small
          length_full_page_batch r[simplified] o)
qed








lemma page_cmd_state: "page_cmd r t s l f ! 4 = ''--state'' \<and> page_cmd r t s l f ! 5 = s"
  by (simp add: page_cmd_def)

lemma digit_cases:
  "d < 10 \<Longrightarrow> d = 0 \<or> d = 1 \<or> d = 2 \<or> d = 3 \<or> d = 4 \<or> d = 5 \<or> d = 6 \<or> d = 7 \<or> d = 8 \<or> d = (9::nat)"
  by arith

lemma of_char_digit_char: "d < 10 \<Longrightarrow> (of_char (digit_char d) :: nat) = 48 + d"
  by (drule digit_cases) (elim disjE; simp add: digit_char_def)

lemma digit_char_eq_iff: "a < 10 \<Longrightarrow> b < 10 \<Longrightarrow> digit_char a = digit_char b \<longleftrightarrow> a = b"
proof
  assume a: "a < 10" and b: "b < 10" and e: "digit_char a = digit_char b"
  from e have "(of_char (digit_char a) :: nat) = of_char (digit_char b)" by (rule arg_cong)
  then show "a = b" unfolding of_char_digit_char[OF a] of_char_digit_char[OF b] by simp
qed simp

lemma str_nat_small: "n < 10 \<Longrightarrow> str_nat n = [digit_char n]"
  by (subst str_nat.simps) simp

lemma str_nat_step:
  "b < 10 \<Longrightarrow> 0 < a \<Longrightarrow> str_nat (10 * a + b) = str_nat a @ [digit_char b]"
  by (subst str_nat.simps) simp

lemma digit_char_0: "digit_char 0 = CHR ''0''"
  by (simp add: digit_char_def)

lemma str_nat_digit:
  "b < 10 \<Longrightarrow> str_nat (10 * a + b) = (if a = 0 then [] else str_nat a) @ [digit_char b]"
  by (cases "a = 0") (simp_all add: str_nat_small str_nat_step)

lemma zero_pad_2_digits:
  assumes "a < 10" "b < 10"
  shows "zero_pad 2 (10 * a + b) = [digit_char a, digit_char b]"
  using assms
  by (cases "a = 0") (simp_all add: zero_pad_def str_nat_digit str_nat_small digit_char_0 numeral_2_eq_2)

lemma zero_pad_4_digits:
  assumes "a < 10" "b < 10" "c < 10" "d < 10"
  shows "zero_pad 4 (10 * (10 * (10 * a + b) + c) + d) = [digit_char a, digit_char b, digit_char c, digit_char d]"
proof -
  define n2 where "n2 = 10 * a + b"
  define n3 where "n3 = 10 * n2 + c"
  have e2: "str_nat n2 = (if a = 0 then [] else [digit_char a]) @ [digit_char b]"
    unfolding n2_def using assms by (simp add: str_nat_digit str_nat_small)
  have z2: "n2 = 0 \<longleftrightarrow> a = 0 \<and> b = 0"
    unfolding n2_def by simp
  have e3: "str_nat n3 = (if n2 = 0 then [] else str_nat n2) @ [digit_char c]"
    unfolding n3_def using assms by (simp only: str_nat_digit)
  have z3: "n3 = 0 \<longleftrightarrow> n2 = 0 \<and> c = 0"
    unfolding n3_def by simp
  have e4: "str_nat (10 * n3 + d) = (if n3 = 0 then [] else str_nat n3) @ [digit_char d]"
    using assms by (simp only: str_nat_digit)
  have "zero_pad 4 (10 * n3 + d) = [digit_char a, digit_char b, digit_char c, digit_char d]"
    by (cases "a = 0"; cases "b = 0"; cases "c = 0")
       (simp_all add: zero_pad_def e4 e3 e2 z3 z2 digit_char_0 numeral_3_eq_3 numeral_2_eq_2)
  then show ?thesis
    unfolding n3_def n2_def .
qed

lemma two_digits: "n < 100 \<Longrightarrow> \<exists>a b. a < 10 \<and> b < 10 \<and> n = 10 * a + (b::nat)"
  by (rule exI[of _ "n div 10"], rule exI[of _ "n mod 10"]) simp

lemma four_digits:
  assumes "n < 10000"
  shows "\<exists>a b c d. a < 10 \<and> b < 10 \<and> c < 10 \<and> d < 10 \<and> n = 10 * (10 * (10 * a + b) + c) + (d::nat)"
proof -
  from assms have "n div 100 < 100" by simp
  from two_digits[OF this] obtain a b where ab: "a < 10" "b < 10" "n div 100 = 10 * a + b" by blast
  have "n mod 100 < 100" by simp
  from two_digits[OF this] obtain c d where cd: "c < 10" "d < 10" "n mod 100 = 10 * c + d" by blast
  have "n = 100 * (n div 100) + n mod 100" by simp
  with ab cd have "n = 10 * (10 * (10 * a + b) + c) + d" by simp
  with ab cd show ?thesis by blast
qed

lemma digits_eq:
  assumes "b < 10" "d < 10"
  shows "(10 * a + b = 10 * c + d) \<longleftrightarrow> (a = c \<and> b = (d::nat))"
proof
  assume e: "10 * a + b = 10 * c + d"
  from e have "(10 * a + b) div 10 = (10 * c + d) div 10" by simp
  with assms have "a = c" by simp
  moreover from e have "(10 * a + b) mod 10 = (10 * c + d) mod 10" by simp
  with assms have "b = d" by simp
  ultimately show "a = c \<and> b = d" by simp
qed simp

lemma digits_le:
  assumes "b < 10" "d < 10"
  shows "(10 * a + b \<le> 10 * c + d) \<longleftrightarrow> (a < c \<or> (a = c \<and> b \<le> (d::nat)))"
proof (cases "a < c")
  case True
  with assms have "10 * a + b \<le> 10 * c + d" by linarith
  with True show ?thesis by simp
next
  case False
  show ?thesis
  proof (cases "a = c")
    case True
    then show ?thesis by simp
  next
    case ne: False
    with False have "c < a" by simp
    with assms have "\<not> 10 * a + b \<le> 10 * c + d" by linarith
    with False ne show ?thesis by simp
  qed
qed

lemma str_le_refl: "str_le s s"
  by (induction s) simp_all

lemma str_le_append_same_length:
  "length a = length b \<Longrightarrow> str_le (a @ x) (b @ y) = (if a = b then str_le x y else str_le a b)"
proof (induction a b rule: list_induct2)
  case Nil
  show ?case by simp
next
  case (Cons u us v vs)
  show ?case
  proof (cases "u = v")
    case True
    with Cons.IH show ?thesis by simp
  next
    case False
    then show ?thesis by simp
  qed
qed

lemma str_le_two_digits:
  assumes "a < 10" "b < 10" "c < 10" "d < 10"
  shows "str_le [digit_char a, digit_char b] [digit_char c, digit_char d]
         \<longleftrightarrow> (a < c \<or> (a = c \<and> b \<le> d))"
  using assms by (simp add: digit_char_eq_iff of_char_digit_char le_less)

lemma zero_pad_2_cmp:
  assumes "m < 100" "n < 100"
  shows "length (zero_pad 2 m) = length (zero_pad 2 n)"
    and "zero_pad 2 m = zero_pad 2 n \<longleftrightarrow> m = n"
    and "str_le (zero_pad 2 m) (zero_pad 2 n) \<longleftrightarrow> m \<le> n"
proof -
  from two_digits[OF assms(1)] obtain a b where m: "a < 10" "b < 10" "m = 10 * a + b" by blast
  from two_digits[OF assms(2)] obtain c d where n: "c < 10" "d < 10" "n = 10 * c + d" by blast
  note zm = zero_pad_2_digits[OF m(1,2)] and zn = zero_pad_2_digits[OF n(1,2)]
  show "length (zero_pad 2 m) = length (zero_pad 2 n)"
    unfolding m(3) n(3) zm zn by simp
  show "zero_pad 2 m = zero_pad 2 n \<longleftrightarrow> m = n"
    unfolding m(3) n(3) zm zn digits_eq[OF m(2) n(2)]
    using m(1,2) n(1,2) by (simp add: digit_char_eq_iff)
  show "str_le (zero_pad 2 m) (zero_pad 2 n) \<longleftrightarrow> m \<le> n"
    unfolding m(3) n(3) zm zn digits_le[OF m(2) n(2)]
    by (rule str_le_two_digits[OF m(1,2) n(1,2)])
qed

lemma digits_lt:
  assumes "b < 10" "d < 10"
  shows "(10 * a + b < 10 * c + d) \<longleftrightarrow> (a < c \<or> (a = c \<and> b < (d::nat)))"
proof -
  have "(10 * a + b < 10 * c + d) \<longleftrightarrow> \<not> (10 * c + d \<le> 10 * a + b)" by (simp add: not_le)
  also have "\<dots> \<longleftrightarrow> \<not> (c < a \<or> (c = a \<and> d \<le> b))"
    unfolding digits_le[OF assms(2,1)] ..
  also have "\<dots> \<longleftrightarrow> (a < c \<or> (a = c \<and> b < d))" by auto
  finally show ?thesis .
qed

lemma zero_pad_4_cmp:
  assumes "m < 10000" "n < 10000"
  shows "length (zero_pad 4 m) = length (zero_pad 4 n)"
    and "zero_pad 4 m = zero_pad 4 n \<longleftrightarrow> m = n"
    and "str_le (zero_pad 4 m) (zero_pad 4 n) \<longleftrightarrow> m \<le> n"
proof -
  from four_digits[OF assms(1)] obtain a b c d where
    m: "a < 10" "b < 10" "c < 10" "d < 10" "m = 10 * (10 * (10 * a + b) + c) + d" by blast
  from four_digits[OF assms(2)] obtain a' b' c' d' where
    n: "a' < 10" "b' < 10" "c' < 10" "d' < 10" "n = 10 * (10 * (10 * a' + b') + c') + d'" by blast
  note zm = zero_pad_4_digits[OF m(1-4)] and zn = zero_pad_4_digits[OF n(1-4)]
  show "length (zero_pad 4 m) = length (zero_pad 4 n)"
    unfolding m(5) n(5) zm zn by simp
  show "zero_pad 4 m = zero_pad 4 n \<longleftrightarrow> m = n"
    unfolding m(5) n(5) zm zn digits_eq[OF m(4) n(4)] digits_eq[OF m(3) n(3)] digits_eq[OF m(2) n(2)]
    using m(1-4) n(1-4) by (simp add: digit_char_eq_iff)
  have "str_le [digit_char a, digit_char b, digit_char c, digit_char d]
               [digit_char a', digit_char b', digit_char c', digit_char d']
        \<longleftrightarrow> (if a = a' then if b = b' then if c = c' then d \<le> d' else c < c' else b < b' else a < a')"
    using m(1-4) n(1-4) by (simp add: digit_char_eq_iff of_char_digit_char le_less)
  also have "\<dots> \<longleftrightarrow> ((a < a' \<or> a = a' \<and> b < b') \<or> (a = a' \<and> b = b') \<and> c < c')
                         \<or> ((a = a' \<and> b = b') \<and> c = c') \<and> d \<le> d'"
    by auto
  finally show "str_le (zero_pad 4 m) (zero_pad 4 n) \<longleftrightarrow> m \<le> n"
    unfolding m(5) n(5) zm zn digits_le[OF m(4) n(4)] digits_lt[OF m(3) n(3)] digits_eq[OF m(3) n(3)]
      digits_lt[OF m(2) n(2)] digits_eq[OF m(2) n(2)] .
qed

lemma stamp_cmp:
  assumes "valid_datetime c" "valid_datetime t"
  shows "length (stamp c) = length (stamp t)"
    and "str_le (stamp c) (stamp t) \<longleftrightarrow> fields_le (date_fields c) (date_fields t)"
proof -
  from assms have b:
    "year c < 10000" "year t < 10000" "month c < 100" "month t < 100" "day c < 100" "day t < 100"
    "hour c < 100" "hour t < 100" "minute c < 100" "minute t < 100" "second c < 100" "second t < 100"
    by (simp_all add: valid_datetime_def)
  note y = zero_pad_4_cmp[OF b(1,2)] and mo = zero_pad_2_cmp[OF b(3,4)] and d = zero_pad_2_cmp[OF b(5,6)]
    and h = zero_pad_2_cmp[OF b(7,8)] and mi = zero_pad_2_cmp[OF b(9,10)] and s = zero_pad_2_cmp[OF b(11,12)]
  show "length (stamp c) = length (stamp t)"
    by (simp add: stamp_def y(1) mo(1) d(1) h(1) mi(1) s(1))
  show "str_le (stamp c) (stamp t) \<longleftrightarrow> fields_le (date_fields c) (date_fields t)"
    by (simp add: stamp_def date_fields_def str_le_append_same_length y mo d h mi s le_less)
qed

lemma str_ge_gh_timestamp:
  assumes "valid_datetime c" "valid_datetime t"
  shows "str_ge (gh_timestamp t) (isoformat c) \<longleftrightarrow> not_before_second t c"
proof -
  have r: "str_le ((if microsecond c \<noteq> 0 then ''.'' @ zero_pad 6 (microsecond c) else []) @ ''+00:00'') ''Z''"
    by simp
  have "str_ge (gh_timestamp t) (isoformat c)
        \<longleftrightarrow> (if stamp c = stamp t then True else str_le (stamp c) (stamp t))"
    unfolding str_ge_def gh_timestamp_def isoformat_def
      str_le_append_same_length[OF stamp_cmp(1)[OF assms]]
    using r by simp
  also have "\<dots> \<longleftrightarrow> str_le (stamp c) (stamp t)"
    by (simp add: str_le_refl)
  finally show ?thesis
    unfolding stamp_cmp(2)[OF assms] not_before_second_def .
qed

lemma gh_timestamp_late_time: "gh_timestamp late_time = ''2024-01-15T10:30:00Z''"
  by (simp add: gh_timestamp_def stamp_def zero_pad_def str_nat.simps digit_char_def late_time_def)

lemma gh_timestamp_early_time: "gh_timestamp early_time = ''2024-01-15T10:29:59Z''"
  by (simp add: gh_timestamp_def stamp_def zero_pad_def str_nat.simps digit_char_def early_time_def)

lemma isoformat_demo_time: "isoformat demo_time = ''2024-01-15T10:30:00.500000+00:00''"
  by (simp add: isoformat_def stamp_def zero_pad_def str_nat.simps digit_char_def demo_time_def)

lemma fetch_all_items_hours:
  assumes "fetch_all_items gh json_loads hours_ago w repo item_type state_v None = (Inr all_items, out, cmds, w2)"
      and "hours_ago w2 h = Some c"
  shows "fetch_all_items gh json_loads hours_ago w repo item_type state_v (Some h)
         = (Inr (filter (recent (isoformat c)) all_items),
            out @ (if length (filter (recent (isoformat c)) all_items) < length all_items
                   then [filtered_line (length all_items - length (filter (recent (isoformat c)) all_items)) h]
                   else []),
            cmds, w2)"
  using assms unfolding fetch_all_items_def
  by (auto simp: Let_def split: prod.splits sum.splits)

lemma recent_gh_timestamps:
  assumes "valid_datetime c" "valid_datetime tc" "valid_datetime tu"
      and "createdAt it = Some (gh_timestamp tc)" "updatedAt it = Some (gh_timestamp tu)"
  shows "recent (isoformat c) it \<longleftrightarrow> not_before_second tc c \<or> not_before_second tu c"
  by (simp add: recent_def get_str_def assms(4,5) str_ge_gh_timestamp[OF assms(1,2)]
        str_ge_gh_timestamp[OF assms(1,3)])

lemma window_page_run:
  "fetch_all_items (const_gh ''page'') (\<lambda>s. Loaded window_page) hours_ago () repo item_type state_v None
     = (Inr window_page, [first_page_line 1 2 item_type], [page_cmd repo item_type state_v BATCH_SIZE []], ())"
proof -
  have l: "length window_page \<noteq> BATCH_SIZE"
    by (simp add: window_page_def BATCH_SIZE_def)
  have n: "length window_page = 2"
    by (simp add: window_page_def)
  show ?thesis
    using single_page_run[OF const_gh_page l, of hours_ago repo item_type state_v] by (simp add: n)
qed

lemma valid_demo_times: "valid_datetime demo_time" "valid_datetime late_time" "valid_datetime early_time"
  by (simp_all add: valid_datetime_def demo_time_def late_time_def early_time_def)




text \<open>
  Claim C2, evaluated on a backend that returns the same 500 items on every query:
  \<open>fetch_all_items\<close> returns, and prints the safety warning last, but only after the 21st
  query: the first page and twenty continuation pages. The code increments \<open>page\<close>,
  fetches, and only then tests \<open>page > 20\<close>.
\<close>

theorem safety_cap_reached_after_21_queries:
  "outcome (fetch_all_items (const_gh ''page'') (\<lambda>s. Loaded full_page) (fixed_clock demo_time) ()
             ''o/r'' ''issue'' ''all'' None) = Inr full_page
   \<and> length (issued (fetch_all_items (const_gh ''page'') (\<lambda>s. Loaded full_page) (fixed_clock demo_time) ()
             ''o/r'' ''issue'' ''all'' None)) = 21
   \<and> last (printed (fetch_all_items (const_gh ''page'') (\<lambda>s. Loaded full_page) (fixed_clock demo_time) ()
             ''o/r'' ''issue'' ''all'' None)) = safety_line"
proof -
  from always_full_loop[of 1 19 "''o/r''" "''issue''" "''all''"] obtain out where
    r: "paginate (const_gh ''page'') (\<lambda>s. Loaded full_page) ''o/r'' ''issue'' ''all'' () full_page 1 BATCH_SIZE
          = (Inr full_page, out,
             replicate 20 (page_cmd ''o/r'' ''issue'' ''all'' BATCH_SIZE ''created:<2024-06-01T00:00:00Z''), ())"
    and o: "out \<noteq> []" "last out = safety_line" by auto
  show ?thesis
    by (simp add: fetch_all_items_def const_gh_page length_full_page_batch r[simplified] o
          outcome_def issued_def printed_def)
qed






text \<open>
  Claim C5, as amended. When an hours window is given and the cutoff \<open>c\<close> (the current
  instant less that many hours) is an instant that \<^verbatim>\<open>datetime\<close> holds, the recency filter
  is applied once, to the items accumulated by the same queries as without a window, and
  it retains exactly the items whose \<^verbatim>\<open>createdAt\<close> or \<^verbatim>\<open>updatedAt\<close> string is not below
  the cutoff's ISO string. For timestamps as gh prints them, that is: the items created or last
  updated at the cutoff cut down to its whole second, or later. The boundary is
  inclusive; an item older than the whole second of the cutoff on both fields is excluded.
\<close>

theorem recency_filter_compares_whole_seconds:
  assumes "fetch_all_items gh json_loads hours_ago w repo item_type state_v None = (Inr all_items, out, cmds, w2)"
      and "hours_ago w2 h = Some c"
  shows "(\<exists>out'. fetch_all_items gh json_loads hours_ago w repo item_type state_v (Some h)
            = (Inr (filter (recent (isoformat c)) all_items), out', cmds, w2))
         \<and> (\<forall>it tc tu.
               valid_datetime c \<and> valid_datetime tc \<and> valid_datetime tu
               \<and> createdAt it = Some (gh_timestamp tc) \<and> updatedAt it = Some (gh_timestamp tu) \<longrightarrow>
               (recent (isoformat c) it
                \<longleftrightarrow> not_before_second tc c \<or> not_before_second tu c))"
proof (intro conjI allI impI)
  show "\<exists>out'. fetch_all_items gh json_loads hours_ago w repo item_type state_v (Some h)
            = (Inr (filter (recent (isoformat c)) all_items), out', cmds, w2)"
    unfolding fetch_all_items_hours[OF assms] by blast
next
  fix it :: item and tc tu
  assume "valid_datetime c \<and> valid_datetime tc \<and> valid_datetime tu
               \<and> createdAt it = Some (gh_timestamp tc) \<and> updatedAt it = Some (gh_timestamp tu)"
  then show "recent (isoformat c) it
                \<longleftrightarrow> not_before_second tc c \<or> not_before_second tu c"
    by (intro recent_gh_timestamps) simp_all
qed

theorem recency_filter_compares_whole_seconds_witness:
  "fetch_all_items (const_gh ''page'') (\<lambda>s. Loaded window_page) (fixed_clock demo_time) ()
       ''o/r'' ''issue'' ''all'' None
     = (Inr window_page, [first_page_line 1 2 ''issue''], [page_cmd ''o/r'' ''issue'' ''all'' BATCH_SIZE []], ())
   \<and> fixed_clock demo_time () 24 = Some demo_time
   \<and> (\<exists>out'. fetch_all_items (const_gh ''page'') (\<lambda>s. Loaded window_page) (fixed_clock demo_time) ()
          ''o/r'' ''issue'' ''all'' (Some 24)
        = (Inr (filter (recent (isoformat demo_time)) window_page), out',
           [page_cmd ''o/r'' ''issue'' ''all'' BATCH_SIZE []], ()))
   \<and> valid_datetime demo_time \<and> valid_datetime late_time \<and> valid_datetime early_time
   \<and> createdAt (window_page ! 0) = Some (gh_timestamp late_time)
   \<and> updatedAt (window_page ! 0) = Some (gh_timestamp late_time)
   \<and> createdAt (window_page ! 1) = Some (gh_timestamp early_time)
   \<and> updatedAt (window_page ! 1) = Some (gh_timestamp early_time)
   \<and> not_before_second late_time demo_time \<and> recent (isoformat demo_time) (window_page ! 0)
   \<and> \<not> not_before_second early_time demo_time \<and> \<not> recent (isoformat demo_time) (window_page ! 1)"
proof -
  note run = window_page_run[of "fixed_clock demo_time" "''o/r''" "''issue''" "''all''"]
  have k: "fixed_clock demo_time () 24 = Some demo_time"
    by (simp add: fixed_clock_def)
  note t = recency_filter_compares_whole_seconds[OF run k]
  have c0: "createdAt (window_page ! 0) = Some (gh_timestamp late_time)"
    and u0: "updatedAt (window_page ! 0) = Some (gh_timestamp late_time)"
    and c1: "createdAt (window_page ! 1) = Some (gh_timestamp early_time)"
    and u1: "updatedAt (window_page ! 1) = Some (gh_timestamp early_time)"
    by (simp_all add: window_page_def demo_item_def gh_timestamp_late_time gh_timestamp_early_time)
  have l: "not_before_second late_time demo_time" and e: "\<not> not_before_second early_time demo_time"
    by (simp_all add: not_before_second_def date_fields_def late_time_def early_time_def demo_time_def)
  from t have f: "\<exists>out'. fetch_all_items (const_gh ''page'') (\<lambda>s. Loaded window_page) (fixed_clock demo_time) ()
          ''o/r'' ''issue'' ''all'' (Some 24)
        = (Inr (filter (recent (isoformat demo_time)) window_page), out',
           [page_cmd ''o/r'' ''issue'' ''all'' BATCH_SIZE []], ())"
    by simp
  from t have r: "\<And>it tc tu. valid_datetime demo_time \<and> valid_datetime tc \<and> valid_datetime tu
               \<and> createdAt it = Some (gh_timestamp tc) \<and> updatedAt it = Some (gh_timestamp tu) \<Longrightarrow>
               (recent (isoformat demo_time) it
                \<longleftrightarrow> not_before_second tc demo_time \<or> not_before_second tu demo_time)"
    by simp
  have r0: "recent (isoformat demo_time) (window_page ! 0)"
    using r[of late_time late_time "window_page ! 0"] valid_demo_times c0 u0 l by simp
  have r1: "\<not> recent (isoformat demo_time) (window_page ! 1)"
    using r[of early_time early_time "window_page ! 1"] valid_demo_times c1 u1 e by simp
  from run k f valid_demo_times c0 u0 c1 u1 l e r0 r1 show ?thesis
    by simp
qed

text \<open>
  Claim C5 as stated fails: the only item of the page was created and last updated at
  10:30:00, which is before the cutoff 10:30:00.5, and the filter retains it.
\<close>

theorem recency_filter_keeps_item_before_cutoff:
  "createdAt (demo_item 3 ''2024-01-15T10:30:00Z'') = Some (gh_timestamp late_time)
   \<and> updatedAt (demo_item 3 ''2024-01-15T10:30:00Z'') = Some (gh_timestamp late_time)
   \<and> gh_timestamp late_time = ''2024-01-15T10:30:00Z''
   \<and> isoformat demo_time = ''2024-01-15T10:30:00.500000+00:00''
   \<and> \<not> not_before late_time demo_time
   \<and> fetch_all_items (const_gh ''page'') (\<lambda>s. Loaded [demo_item 3 ''2024-01-15T10:30:00Z''])
        (fixed_clock demo_time) () ''o/r'' ''issue'' ''all'' (Some 24)
      = (Inr [demo_item 3 ''2024-01-15T10:30:00Z''], [first_page_line 1 1 ''issue''],
         [page_cmd ''o/r'' ''issue'' ''all'' BATCH_SIZE []], ())"
proof -
  have l: "length [demo_item 3 ''2024-01-15T10:30:00Z''] \<noteq> BATCH_SIZE"
    by (simp add: BATCH_SIZE_def)
  note run = single_page_run[OF const_gh_page l, of "fixed_clock demo_time" "''o/r''" "''issue''" "''all''"]
  have r: "recent ''2024-01-15T10:30:00.500000+00:00'' (demo_item 3 ''2024-01-15T10:30:00Z'')"
    by (simp add: recent_def demo_item_def get_str_def str_ge_def)
  have n: "\<not> not_before late_time demo_time"
    by (simp add: not_before_def date_fields_def late_time_def demo_time_def)
  have k: "fixed_clock demo_time () 24 = Some demo_time"
    by (simp add: fixed_clock_def)
  show ?thesis
    unfolding fetch_all_items_hours[OF run k]
    by (simp add: gh_timestamp_late_time isoformat_demo_time n r)
       (simp add: demo_item_def)
qed




text \<open>
  Claim C7. For any backend whose first page has fewer than \<open>BATCH_SIZE\<close> (500) items,
  \<open>fetch_all_items\<close> issues exactly one query (the first-page command, without a search
  filter), and with no hours filter it returns exactly that page's items, in order.
\<close>

theorem short_first_page_single_query:
  assumes "fetch_items_page gh json_loads w repo item_type state_v BATCH_SIZE [] = (Inr items, msgs, cmd, w1)"
      and "length items < BATCH_SIZE"
  shows "fetch_all_items gh json_loads hours_ago w repo item_type state_v None
         = (Inr items, msgs @ [first_page_line 1 (length items) item_type],
            [page_cmd repo item_type state_v BATCH_SIZE []], w1)"
  using assms by (intro single_page_run) auto

theorem short_first_page_single_query_witness:
  "fetch_items_page (const_gh ''page'') (\<lambda>s. Loaded short_page) () ''o/r'' ''issue'' ''all'' BATCH_SIZE []
     = (Inr short_page, [], page_cmd ''o/r'' ''issue'' ''all'' BATCH_SIZE [], ())
   \<and> length short_page < BATCH_SIZE
   \<and> fetch_all_items (const_gh ''page'') (\<lambda>s. Loaded short_page) (fixed_clock demo_time) () ''o/r'' ''issue'' ''all'' None
     = (Inr short_page, [first_page_line 1 2 ''issue''], [page_cmd ''o/r'' ''issue'' ''all'' BATCH_SIZE []], ())"
proof -
  note f = const_gh_page[of short_page "''o/r''" "''issue''" "''all''" BATCH_SIZE "[]"]
  have l: "length short_page < BATCH_SIZE"
    by (simp add: short_page_def BATCH_SIZE_def)
  have n: "length short_page = 2"
    by (simp add: short_page_def)
  from short_first_page_single_query[OF f l, of "fixed_clock demo_time"] f l show ?thesis
    by (simp add: n)
qed





text \<open>
  Claim C10. The commands do not share one default for \<^verbatim>\<open>--state\<close>. With the option left
  out, \<^verbatim>\<open>prs\<close> behaves as with \<^verbatim>\<open>--state open\<close>, and \<^verbatim>\<open>issues\<close> and \<^verbatim>\<open>all\<close> as with
  \<^verbatim>\<open>--state all\<close>: every list query they issue carries that state.
\<close>

theorem default_state_differs_per_command:
  "issues gh json_loads json_dumps hours_ago w repo None hours output_opt
     = issues gh json_loads json_dumps hours_ago w repo (Some ItemState_ALL) hours output_opt
   \<and> prs gh json_loads json_dumps hours_ago w repo None hours output_opt
     = prs gh json_loads json_dumps hours_ago w repo (Some ItemState_OPEN) hours output_opt
   \<and> fetch_all gh json_loads json_dumps_all hours_ago w repo None hours output_opt
     = fetch_all gh json_loads json_dumps_all hours_ago w repo (Some ItemState_ALL) hours output_opt
   \<and> (\<forall>cmd \<in> set (issued (issues gh json_loads json_dumps hours_ago w repo None hours output_opt)).
        cmd = repo_view_cmd \<or> (\<exists>r f. cmd = page_cmd r ''issue'' ''all'' BATCH_SIZE f))
   \<and> (\<forall>cmd \<in> set (issued (prs gh json_loads json_dumps hours_ago w repo None hours output_opt)).
        cmd = repo_view_cmd \<or> (\<exists>r f. cmd = page_cmd r ''pr'' ''open'' BATCH_SIZE f))
   \<and> (\<forall>cmd \<in> set (issued (fetch_all gh json_loads json_dumps_all hours_ago w repo None hours output_opt)).
        cmd = repo_view_cmd \<or> (\<exists>r t f. cmd = page_cmd r t ''all'' BATCH_SIZE f))"
proof (intro conjI ballI)
  show "issues gh json_loads json_dumps hours_ago w repo None hours output_opt
     = issues gh json_loads json_dumps hours_ago w repo (Some ItemState_ALL) hours output_opt"
    by (simp add: issues_def)
  show "prs gh json_loads json_dumps hours_ago w repo None hours output_opt
     = prs gh json_loads json_dumps hours_ago w repo (Some ItemState_OPEN) hours output_opt"
    by (simp add: prs_def)
  show "fetch_all gh json_loads json_dumps_all hours_ago w repo None hours output_opt
     = fetch_all gh json_loads json_dumps_all hours_ago w repo (Some ItemState_ALL) hours output_opt"
    by (simp add: fetch_all_def)
next
  fix cmd assume "cmd \<in> set (issued (issues gh json_loads json_dumps hours_ago w repo None hours output_opt))"
  from issues_commands[OF this]
  show "cmd = repo_view_cmd \<or> (\<exists>r f. cmd = page_cmd r ''issue'' ''all'' BATCH_SIZE f)" by simp
next
  fix cmd assume "cmd \<in> set (issued (prs gh json_loads json_dumps hours_ago w repo None hours output_opt))"
  from prs_commands[OF this]
  show "cmd = repo_view_cmd \<or> (\<exists>r f. cmd = page_cmd r ''pr'' ''open'' BATCH_SIZE f)" by simp
next
  fix cmd assume "cmd \<in> set (issued (fetch_all gh json_loads json_dumps_all hours_ago w repo None hours output_opt))"
  from fetch_all_commands[OF this]
  show "cmd = repo_view_cmd \<or> (\<exists>r t f. cmd = page_cmd r t ''all'' BATCH_SIZE f)" by simp
qed

theorem default_state_differs_per_command_witness:
  "issued (issues (const_gh ''page'') (\<lambda>s. Loaded short_page) (\<lambda>items. []) (fixed_clock demo_time) ()
       (Some ''o/r'') None None None)
     = [page_cmd ''o/r'' ''issue'' ''all'' BATCH_SIZE []]
   \<and> issued (prs (const_gh ''page'') (\<lambda>s. Loaded short_page) (\<lambda>items. []) (fixed_clock demo_time) ()
       (Some ''o/r'') None None None)
     = [page_cmd ''o/r'' ''pr'' ''open'' BATCH_SIZE []]
   \<and> issued (fetch_all (const_gh ''page'') (\<lambda>s. Loaded short_page) (\<lambda>issues_items prs_items. [])
       (fixed_clock demo_time) () (Some ''o/r'') None None None)
     = [page_cmd ''o/r'' ''issue'' ''all'' BATCH_SIZE [], page_cmd ''o/r'' ''pr'' ''all'' BATCH_SIZE []]
   \<and> page_cmd ''o/r'' ''issue'' ''all'' BATCH_SIZE [] ! 5 = ''all''
   \<and> page_cmd ''o/r'' ''pr'' ''open'' BATCH_SIZE [] ! 5 = ''open''
   \<and> page_cmd ''o/r'' ''pr'' ''all'' BATCH_SIZE [] ! 5 = ''all''"
proof -
  note run = single_page_run[OF const_gh_page short_page_not_full]
  note d = default_state_differs_per_command[of "const_gh ''page''" "\<lambda>s. Loaded short_page" "\<lambda>items. []"
      "fixed_clock demo_time" "()" "Some ''o/r''" None None "\<lambda>issues_items prs_items. []"]
  have a: "issued (issues (const_gh ''page'') (\<lambda>s. Loaded short_page) (\<lambda>items. []) (fixed_clock demo_time) ()
       (Some ''o/r'') (Some ItemState_ALL) None None) = [page_cmd ''o/r'' ''issue'' ''all'' BATCH_SIZE []]"
    by (simp add: issues_def resolve_target_def run issued_def)
  have b: "issued (prs (const_gh ''page'') (\<lambda>s. Loaded short_page) (\<lambda>items. []) (fixed_clock demo_time) ()
       (Some ''o/r'') (Some ItemState_OPEN) None None) = [page_cmd ''o/r'' ''pr'' ''open'' BATCH_SIZE []]"
    by (simp add: prs_def resolve_target_def run issued_def)
  have c: "issued (fetch_all (const_gh ''page'') (\<lambda>s. Loaded short_page) (\<lambda>issues_items prs_items. [])
       (fixed_clock demo_time) () (Some ''o/r'') (Some ItemState_ALL) None None)
     = [page_cmd ''o/r'' ''issue'' ''all'' BATCH_SIZE [], page_cmd ''o/r'' ''pr'' ''all'' BATCH_SIZE []]"
    by (simp add: fetch_all_def resolve_target_def run issued_def)
  from d a b c show ?thesis
    by (simp add: page_cmd_state)
qed

end
